theory Spec2Isabelle
  imports Main "HOL-Library.Multiset"
begin

section \<open>Data model of server.js\<close>

text \<open>
  Identifiers are the strings produced by \<^verbatim>\<open>uuidv4()\<close> (quizzes, questions) or sent by the
  client (option ids, the ids inside answers). The comparisons of the source are all
  \<^verbatim>\<open>===\<close> on such strings.
\<close>

type_synonym ident = string

text \<open>An element of \<^verbatim>\<open>options\<close>: the object \<^verbatim>\<open>{id, text}\<close>.\<close>

record opt =
  opt_id :: ident
  opt_text :: string

text \<open>\<^verbatim>\<open>class Quiz { id; title; questions }\<close>, \<^verbatim>\<open>questions\<close> being the array of question ids.\<close>

record quiz =
  quiz_id :: ident
  quiz_title :: string
  quiz_questions :: "ident list"

text \<open>\<^verbatim>\<open>class Question { id; quizId; text; options; correctOptionId }\<close>.\<close>

record question =
  question_id :: ident
  question_quizId :: ident
  question_text :: string
  question_options :: "opt list"
  question_correctOptionId :: ident

text \<open>An element of \<^verbatim>\<open>answers\<close>: the object \<^verbatim>\<open>{questionId, selectedOptionId}\<close>.\<close>

record answer =
  questionId :: ident
  selectedOptionId :: ident

text \<open>The two module-level arrays \<^verbatim>\<open>quizzes\<close> and \<^verbatim>\<open>questions\<close>.\<close>

record state =
  quizzes :: "quiz list"
  questions :: "question list"

definition initial :: state where
  "initial = \<lparr>quizzes = [], questions = []\<rparr>"

text \<open>The object literals returned by \<^verbatim>\<open>getAllQuizzes\<close>, \<^verbatim>\<open>getQuestions\<close> and \<^verbatim>\<open>submitAnswers\<close>.\<close>

record quiz_view =
  qv_id :: ident
  qv_title :: string

record question_view =
  view_id :: ident
  view_text :: string
  view_options :: "opt list"

record result =
  result_score :: nat
  result_total :: nat

text \<open>
  Every failure of the service is \<^verbatim>\<open>throw new Error(msg)\<close> with one of three messages; the
  constructors are the three kinds and \<open>message\<close> gives the text thrown.
\<close>

datatype error = NotFound | InvalidReference | ValidationError

fun message :: "error \<Rightarrow> string" where
  "message NotFound = ''Quiz not found''"
| "message InvalidReference = ''Invalid correct option ID''"
| "message ValidationError = ''Answers must cover all questions''"


section \<open>QuizService\<close>

text \<open>
  Each operation takes the state and returns its result together with the state it leaves.
  \<^verbatim>\<open>uuidv4()\<close> is a library call: the identifier it returns is the argument \<open>newId\<close>.
\<close>

definition createQuiz :: "ident \<Rightarrow> string \<Rightarrow> state \<Rightarrow> quiz \<times> state" where
  "createQuiz newId title st =
     (let quiz = \<lparr>quiz_id = newId, quiz_title = title, quiz_questions = []\<rparr>
      in (quiz, st\<lparr>quizzes := quizzes st @ [quiz]\<rparr>))"

definition getAllQuizzes :: "state \<Rightarrow> quiz_view list \<times> state" where
  "getAllQuizzes st =
     (map (\<lambda>q. \<lparr>qv_id = quiz_id q, qv_title = quiz_title q\<rparr>) (quizzes st), st)"

text \<open>
  \<^verbatim>\<open>quiz.questions.push(id)\<close> on the object that \<^verbatim>\<open>quizzes.find(q => q.id === quizId)\<close>
  returned: the first quiz of the array with that id is the one mutated.
\<close>

fun push_question :: "ident \<Rightarrow> ident \<Rightarrow> quiz list \<Rightarrow> quiz list" where
  "push_question quizId newId [] = []"
| "push_question quizId newId (q # qs) =
     (if quiz_id q = quizId
      then q\<lparr>quiz_questions := quiz_questions q @ [newId]\<rparr> # qs
      else q # push_question quizId newId qs)"

definition addQuestion ::
    "ident \<Rightarrow> ident \<Rightarrow> string \<Rightarrow> opt list \<Rightarrow> ident \<Rightarrow> state \<Rightarrow> (error + question) \<times> state" where
  "addQuestion newId quizId text options correctOptionId st =
     (case find (\<lambda>q. quiz_id q = quizId) (quizzes st) of
        None \<Rightarrow> (Inl NotFound, st)
      | Some quiz \<Rightarrow>
          (case find (\<lambda>opt. opt_id opt = correctOptionId) options of
             None \<Rightarrow> (Inl InvalidReference, st)
           | Some correctOption \<Rightarrow>
               (let question = \<lparr>question_id = newId, question_quizId = quizId,
                                 question_text = text, question_options = options,
                                 question_correctOptionId = correctOptionId\<rparr>
                in (Inr question,
                    \<lparr>quizzes = push_question quizId newId (quizzes st),
                     questions = questions st @ [question]\<rparr>))))"

definition getQuestions :: "ident \<Rightarrow> state \<Rightarrow> (error + question_view list) \<times> state" where
  "getQuestions quizId st =
     (case find (\<lambda>q. quiz_id q = quizId) (quizzes st) of
        None \<Rightarrow> (Inl NotFound, st)
      | Some quiz \<Rightarrow>
          (Inr (map (\<lambda>q. \<lparr>view_id = question_id q, view_text = question_text q,
                           view_options = question_options q\<rparr>)
                  (filter (\<lambda>q. question_quizId q = quizId) (questions st))),
           st))"

text \<open>The body of the \<^verbatim>\<open>answers.forEach\<close> callback, as a function of the running score.\<close>

definition score_step :: "question list \<Rightarrow> answer \<Rightarrow> nat \<Rightarrow> nat" where
  "score_step quizQuestions answer score =
     (case find (\<lambda>q. question_id q = questionId answer) quizQuestions of
        None \<Rightarrow> score
      | Some question \<Rightarrow>
          (if question_correctOptionId question = selectedOptionId answer
           then score + 1 else score))"

definition submitAnswers :: "ident \<Rightarrow> answer list \<Rightarrow> state \<Rightarrow> (error + result) \<times> state" where
  "submitAnswers quizId answers st =
     (case find (\<lambda>q. quiz_id q = quizId) (quizzes st) of
        None \<Rightarrow> (Inl NotFound, st)
      | Some quiz \<Rightarrow>
          (let quizQuestions = filter (\<lambda>q. question_quizId q = quizId) (questions st);
               total = length quizQuestions
           in if length answers \<noteq> total then (Inl ValidationError, st)
              else (Inr \<lparr>result_score = fold (score_step quizQuestions) answers 0,
                        result_total = total\<rparr>,
                    st)))"


section \<open>Sequences of calls\<close>

datatype call =
    CreateQuiz ident string
  | GetAllQuizzes
  | AddQuestion ident ident string "opt list" ident
  | GetQuestions ident
  | SubmitAnswers ident "answer list"

fun step :: "call \<Rightarrow> state \<Rightarrow> state" where
  "step (CreateQuiz newId title) st = snd (createQuiz newId title st)"
| "step GetAllQuizzes st = snd (getAllQuizzes st)"
| "step (AddQuestion newId quizId text options correctOptionId) st =
     snd (addQuestion newId quizId text options correctOptionId st)"
| "step (GetQuestions quizId) st = snd (getQuestions quizId st)"
| "step (SubmitAnswers quizId answers) st = snd (submitAnswers quizId answers st)"

fun run :: "call list \<Rightarrow> state \<Rightarrow> state" where
  "run [] st = st"
| "run (c # cs) st = run cs (step c st)"

text \<open>
  The contract of \<^verbatim>\<open>uuidv4()\<close>: the identifier it hands out is not yet in use in the
  collection it is generated for.
\<close>

fun fresh :: "call \<Rightarrow> state \<Rightarrow> bool" where
  "fresh (CreateQuiz newId title) st = (newId \<notin> set (map quiz_id (quizzes st)))"
| "fresh (AddQuestion newId quizId text options correctOptionId) st =
     (newId \<notin> set (map question_id (questions st)))"
| "fresh c st = True"

fun fresh_ids :: "call list \<Rightarrow> state \<Rightarrow> bool" where
  "fresh_ids [] st = True"
| "fresh_ids (c # cs) st = (fresh c st \<and> fresh_ids cs (step c st))"

text \<open>
  What \<^verbatim>\<open>QuizController\<close> checks before it calls the service: \<^verbatim>\<open>!title\<close>;
  \<^verbatim>\<open>!text || !options || !correctOptionId\<close> and \<^verbatim>\<open>options.length < 2\<close>. A string is falsy
  exactly when it is empty, an array never.
\<close>

fun validated :: "call \<Rightarrow> bool" where
  "validated (CreateQuiz newId title) = (title \<noteq> [])"
| "validated (AddQuestion newId quizId text options correctOptionId) =
     (\<not> (text = [] \<or> correctOptionId = []) \<and> \<not> length options < 2)"
| "validated c = True"


text \<open>
  The identifiers \<^verbatim>\<open>uuidv4()\<close> returns during a call: \<^verbatim>\<open>createQuiz\<close> always asks for one,
  \<^verbatim>\<open>addQuestion\<close> only after both of its checks have passed, the other operations never.
\<close>

fun generated_by :: "call \<Rightarrow> state \<Rightarrow> ident list" where
  "generated_by (CreateQuiz newId title) st = [newId]"
| "generated_by (AddQuestion newId quizId text options correctOptionId) st =
     (if quizId \<in> set (map quiz_id (quizzes st)) \<and>
         correctOptionId \<in> set (map opt_id options)
      then [newId] else [])"
| "generated_by c st = []"

text \<open>The identifiers \<^verbatim>\<open>uuidv4()\<close> returns during a sequence of calls, in order.\<close>

fun generated :: "call list \<Rightarrow> state \<Rightarrow> ident list" where
  "generated [] st = []"
| "generated (c # cs) st = generated_by c st @ generated cs (step c st)"


section \<open>The specification's vocabulary\<close>

text \<open>The number of questions whose \<^verbatim>\<open>quizId\<close> field is the given one.\<close>

definition spec_total :: "ident \<Rightarrow> state \<Rightarrow> nat" where
  "spec_total quizId st = length (filter (\<lambda>q. question_quizId q = quizId) (questions st))"

text \<open>
  The number of answers for which some question of the quiz has the answer's question id
  and has the selected option as its correct one.
\<close>

definition spec_score :: "ident \<Rightarrow> answer list \<Rightarrow> state \<Rightarrow> nat" where
  "spec_score quizId answers st =
     length (filter (\<lambda>a. list_ex (\<lambda>q. question_quizId q = quizId \<and>
                                      question_id q = questionId a \<and>
                                      question_correctOptionId q = selectedOptionId a)
                           (questions st))
               answers)"

text \<open>
  The questions of a quiz, walking the question collection in insertion order and keeping
  \<^verbatim>\<open>{id, text, options}\<close> of each question that belongs to the quiz.
\<close>

fun spec_questions_of :: "ident \<Rightarrow> question list \<Rightarrow> question_view list" where
  "spec_questions_of quizId [] = []"
| "spec_questions_of quizId (q # qs) =
     (if question_quizId q = quizId
      then \<lparr>view_id = question_id q, view_text = question_text q,
            view_options = question_options q\<rparr> # spec_questions_of quizId qs
      else spec_questions_of quizId qs)"

text \<open>Whether the stored questions all have pairwise distinct option ids.\<close>

definition options_distinct :: "state \<Rightarrow> bool" where
  "options_distinct st =
     list_all (\<lambda>q. distinct (map opt_id (question_options q))) (questions st)"

text \<open>Whether the caller of \<^verbatim>\<open>addQuestion\<close> passes options with pairwise distinct ids.\<close>

fun distinct_options_supplied :: "call \<Rightarrow> bool" where
  "distinct_options_supplied (AddQuestion newId quizId text options correctOptionId) =
     distinct (map opt_id options)"
| "distinct_options_supplied c = True"


section \<open>Auxiliary notions\<close>

text \<open>Whether the \<^verbatim>\<open>forEach\<close> callback increments the score at an answer.\<close>

definition scores :: "question list \<Rightarrow> answer \<Rightarrow> bool" where
  "scores quizQuestions a =
     (case find (\<lambda>q. question_id q = questionId a) quizQuestions of
        None \<Rightarrow> False
      | Some question \<Rightarrow> question_correctOptionId question = selectedOptionId a)"

text \<open>
  Quiz ids are unique, every question belongs to a quiz of the collection, and the question
  ids a quiz records are those of its questions in the question collection, in order.
\<close>

definition consistent :: "state \<Rightarrow> bool" where
  "consistent st =
     (distinct (map quiz_id (quizzes st)) \<and>
      (\<forall>x \<in> set (questions st). question_quizId x \<in> set (map quiz_id (quizzes st))) \<and>
      (\<forall>q \<in> set (quizzes st).
         quiz_questions q =
           map question_id (filter (\<lambda>x. question_quizId x = quiz_id q) (questions st))))"


section \<open>A worked scenario\<close>

text \<open>
  Three quizzes; the first gets two questions, the second one question in between, the
  third stays empty.
\<close>

definition demo_calls :: "call list" where
  "demo_calls =
     [CreateQuiz ''q1'' ''Math Quiz'',
      CreateQuiz ''q2'' ''Capitals'',
      CreateQuiz ''q3'' ''Empty'',
      AddQuestion ''n1'' ''q1'' ''What is 2+2?''
        [\<lparr>opt_id = ''a'', opt_text = ''3''\<rparr>, \<lparr>opt_id = ''b'', opt_text = ''4''\<rparr>] ''b'',
      AddQuestion ''n2'' ''q2'' ''Capital of France?''
        [\<lparr>opt_id = ''a'', opt_text = ''Paris''\<rparr>, \<lparr>opt_id = ''b'', opt_text = ''Rome''\<rparr>] ''a'',
      AddQuestion ''n3'' ''q1'' ''What is 1+2?''
        [\<lparr>opt_id = ''a'', opt_text = ''3''\<rparr>, \<lparr>opt_id = ''b'', opt_text = ''4''\<rparr>] ''a'']"

definition demo_state :: state where
  "demo_state = run demo_calls initial"

text \<open>One quiz and a question whose two options carry the same id.\<close>

definition duplicate_calls :: "call list" where
  "duplicate_calls =
     [CreateQuiz ''q1'' ''Math Quiz'',
      AddQuestion ''n1'' ''q1'' ''What is 2+2?''
        [\<lparr>opt_id = ''a'', opt_text = ''3''\<rparr>, \<lparr>opt_id = ''a'', opt_text = ''4''\<rparr>] ''a'']"


section \<open>Lemmas about the operations\<close>

lemma find_quiz_None:
  "(find (\<lambda>q. quiz_id q = quizId) qs = None) = (quizId \<notin> set (map quiz_id qs))"
  by (auto simp: find_None_iff)

lemma find_quiz_Some:
  "quizId \<in> set (map quiz_id qs) \<Longrightarrow> \<exists>q. find (\<lambda>q. quiz_id q = quizId) qs = Some q"
  using find_quiz_None [of quizId qs] by (cases "find (\<lambda>q. quiz_id q = quizId) qs") auto

lemma score_step_scores:
  "score_step qs a n = (if scores qs a then Suc n else n)"
  by (simp add: score_step_def scores_def split: option.split)

lemma fold_score_step:
  "fold (score_step qs) answers n = n + length (filter (scores qs) answers)"
  by (induction answers arbitrary: n) (simp_all add: score_step_scores)

lemma submitAnswers_found:
  assumes "quizId \<in> set (map quiz_id (quizzes st))"
  shows "submitAnswers quizId answers st =
    (if length answers \<noteq> spec_total quizId st then (Inl ValidationError, st)
     else (Inr \<lparr>result_score =
                  length (filter (scores (filter (\<lambda>q. question_quizId q = quizId) (questions st))) answers),
                result_total = spec_total quizId st\<rparr>, st))"
proof -
  obtain q where "find (\<lambda>q. quiz_id q = quizId) (quizzes st) = Some q"
    using find_quiz_Some [OF assms] by blast
  then show ?thesis
    by (simp add: submitAnswers_def spec_total_def fold_score_step Let_def)
qed

lemma submitAnswers_missing:
  "quizId \<notin> set (map quiz_id (quizzes st)) \<Longrightarrow> submitAnswers quizId answers st = (Inl NotFound, st)"
  using find_quiz_None [of quizId "quizzes st"] by (simp add: submitAnswers_def)

lemma submitAnswers_snd: "snd (submitAnswers quizId answers st) = st"
  by (cases "quizId \<in> set (map quiz_id (quizzes st))")
     (simp_all add: submitAnswers_found submitAnswers_missing)

lemma find_opt_None:
  "(find (\<lambda>opt. opt_id opt = c) options = None) = (c \<notin> set (map opt_id options))"
  by (auto simp: find_None_iff)

lemma push_question_ids: "map quiz_id (push_question quizId newId qs) = map quiz_id qs"
  by (induction qs) simp_all

lemma push_question_distinct:
  "distinct (map quiz_id qs) \<Longrightarrow>
   push_question quizId newId qs =
     map (\<lambda>q. if quiz_id q = quizId then q\<lparr>quiz_questions := quiz_questions q @ [newId]\<rparr> else q) qs"
proof (induction qs)
  case Nil
  then show ?case by simp
next
  case (Cons q qs)
  show ?case
  proof (cases "quiz_id q = quizId")
    case True
    with Cons.prems have "quizId \<notin> quiz_id ` set qs" by simp
    then have "\<forall>x \<in> set qs. quiz_id x \<noteq> quizId" by blast
    then have "map (\<lambda>q. if quiz_id q = quizId then q\<lparr>quiz_questions := quiz_questions q @ [newId]\<rparr> else q) qs = qs"
      by (simp add: map_idI)
    with True show ?thesis by simp
  next
    case False
    with Cons show ?thesis by simp
  qed
qed

lemma push_question_split:
  "quizId \<in> set (map quiz_id qs) \<Longrightarrow>
   \<exists>qs1 q qs2. qs = qs1 @ q # qs2 \<and> quiz_id q = quizId \<and> quizId \<notin> set (map quiz_id qs1) \<and>
     push_question quizId newId qs = qs1 @ q\<lparr>quiz_questions := quiz_questions q @ [newId]\<rparr> # qs2"
proof (induction qs)
  case Nil
  then show ?case by simp
next
  case (Cons x qs)
  show ?case
  proof (cases "quiz_id x = quizId")
    case True
    then have "x # qs = [] @ x # qs \<and> quiz_id x = quizId \<and> quizId \<notin> set (map quiz_id []) \<and>
      push_question quizId newId (x # qs) = [] @ x\<lparr>quiz_questions := quiz_questions x @ [newId]\<rparr> # qs"
      by simp
    then show ?thesis by blast
  next
    case False
    with Cons.prems have "quizId \<in> set (map quiz_id qs)" by auto
    from Cons.IH [OF this] obtain qs1 q qs2 where
      h: "qs = qs1 @ q # qs2" "quiz_id q = quizId" "quizId \<notin> set (map quiz_id qs1)"
         "push_question quizId newId qs = qs1 @ q\<lparr>quiz_questions := quiz_questions q @ [newId]\<rparr> # qs2"
      by blast
    with False have "x # qs = (x # qs1) @ q # qs2 \<and> quiz_id q = quizId \<and>
      quizId \<notin> set (map quiz_id (x # qs1)) \<and>
      push_question quizId newId (x # qs) =
        (x # qs1) @ q\<lparr>quiz_questions := quiz_questions q @ [newId]\<rparr> # qs2"
      by auto
    then show ?thesis by blast
  qed
qed

lemma addQuestion_cases:
  "addQuestion newId quizId text options c st =
     (if quizId \<notin> set (map quiz_id (quizzes st)) then (Inl NotFound, st)
      else if c \<notin> set (map opt_id options) then (Inl InvalidReference, st)
      else (Inr \<lparr>question_id = newId, question_quizId = quizId, question_text = text,
                 question_options = options, question_correctOptionId = c\<rparr>,
            \<lparr>quizzes = push_question quizId newId (quizzes st),
             questions = questions st @
               [\<lparr>question_id = newId, question_quizId = quizId, question_text = text,
                 question_options = options, question_correctOptionId = c\<rparr>]\<rparr>))"
  using find_quiz_None [of quizId "quizzes st"] find_opt_None [of c options]
  by (auto simp: addQuestion_def Let_def split: option.splits)

lemma getQuestions_snd: "snd (getQuestions quizId st) = st"
  by (simp add: getQuestions_def split: option.splits)


lemma step_reads:
  "step GetAllQuizzes st = st" "step (GetQuestions quizId) st = st"
  "step (SubmitAnswers quizId answers) st = st"
  by (simp_all add: getAllQuizzes_def getQuestions_snd submitAnswers_snd)

lemma consistent_initial: "consistent initial"
  by (simp add: consistent_def initial_def)

lemma consistent_createQuiz:
  assumes "consistent st" "newId \<notin> set (map quiz_id (quizzes st))"
  shows "consistent (step (CreateQuiz newId title) st)"
proof -
  from assms have "filter (\<lambda>x. question_quizId x = newId) (questions st) = []"
    by (auto simp: consistent_def filter_empty_conv)
  with assms show ?thesis
    by (auto simp: consistent_def createQuiz_def Let_def)
qed

lemma consistent_addQuestion:
  assumes "consistent st"
  shows "consistent (step (AddQuestion newId quizId text options c) st)"
proof (cases "quizId \<in> set (map quiz_id (quizzes st)) \<and> c \<in> set (map opt_id options)")
  case False
  with assms show ?thesis by (auto simp: addQuestion_cases)
next
  case True
  define new where "new = \<lparr>question_id = newId, question_quizId = quizId, question_text = text,
    question_options = options, question_correctOptionId = c\<rparr>"
  define st' where "st' = \<lparr>quizzes = push_question quizId newId (quizzes st),
    questions = questions st @ [new]\<rparr>"
  have st': "step (AddQuestion newId quizId text options c) st = st'"
    using True by (simp add: addQuestion_cases st'_def new_def)
  from assms have d: "distinct (map quiz_id (quizzes st))"
    and r: "\<forall>x \<in> set (questions st). question_quizId x \<in> set (map quiz_id (quizzes st))"
    and k: "\<forall>q \<in> set (quizzes st). quiz_questions q =
           map question_id (filter (\<lambda>x. question_quizId x = quiz_id q) (questions st))"
    by (simp_all add: consistent_def)
  have ids: "map quiz_id (quizzes st') = map quiz_id (quizzes st)"
    by (simp add: st'_def push_question_ids)
  have 1: "distinct (map quiz_id (quizzes st'))"
    using d by (simp only: ids)
  have 2: "\<forall>x \<in> set (questions st'). question_quizId x \<in> set (map quiz_id (quizzes st'))"
    unfolding ids using r True by (auto simp: st'_def new_def)
  have 3: "\<forall>q \<in> set (quizzes st'). quiz_questions q =
           map question_id (filter (\<lambda>x. question_quizId x = quiz_id q) (questions st'))"
  proof
    fix q' assume "q' \<in> set (quizzes st')"
    then obtain q where q: "q \<in> set (quizzes st)"
      and q': "q' = (if quiz_id q = quizId then q\<lparr>quiz_questions := quiz_questions q @ [newId]\<rparr> else q)"
      by (auto simp: st'_def push_question_distinct [OF d])
    from k q have "quiz_questions q =
           map question_id (filter (\<lambda>x. question_quizId x = quiz_id q) (questions st))"
      by blast
    then show "quiz_questions q' =
           map question_id (filter (\<lambda>x. question_quizId x = quiz_id q') (questions st'))"
      by (simp add: q' st'_def new_def)
  qed
  from 1 2 3 show ?thesis unfolding st' by (simp add: consistent_def)
qed

lemma consistent_step: "consistent st \<Longrightarrow> fresh c st \<Longrightarrow> consistent (step c st)"
proof (cases c)
  case (CreateQuiz newId title)
  assume "consistent st" "fresh c st"
  with CreateQuiz show ?thesis using consistent_createQuiz by simp
next
  case (AddQuestion newId quizId body options correct)
  assume "consistent st"
  with AddQuestion show ?thesis using consistent_addQuestion by simp
qed (simp_all add: getAllQuizzes_def getQuestions_snd submitAnswers_snd)

lemma consistent_run: "consistent st \<Longrightarrow> fresh_ids cs st \<Longrightarrow> consistent (run cs st)"
  by (induction cs arbitrary: st) (simp_all add: consistent_step)

lemma question_ids_step:
  "distinct (map question_id (questions st)) \<Longrightarrow> fresh c st \<Longrightarrow>
   distinct (map question_id (questions (step c st)))"
  by (cases c) (auto simp: createQuiz_def Let_def getAllQuizzes_def getQuestions_snd submitAnswers_snd addQuestion_cases)

lemma question_ids_run:
  "distinct (map question_id (questions st)) \<Longrightarrow> fresh_ids cs st \<Longrightarrow>
   distinct (map question_id (questions (run cs st)))"
  by (induction cs arbitrary: st) (simp_all add: question_ids_step)

section \<open>Scoring\<close>

text \<open>From the empty state, fresh identifiers keep the question ids pairwise distinct.\<close>

lemma reachable_question_ids_distinct:
  "fresh_ids cs initial \<Longrightarrow> distinct (map question_id (questions (run cs initial)))"
  by (rule question_ids_run) (simp_all add: initial_def)

lemma demo_state_eq:
  "demo_state =
     \<lparr>quizzes =
        [\<lparr>quiz_id = ''q1'', quiz_title = ''Math Quiz'', quiz_questions = [''n1'', ''n3'']\<rparr>,
         \<lparr>quiz_id = ''q2'', quiz_title = ''Capitals'', quiz_questions = [''n2'']\<rparr>,
         \<lparr>quiz_id = ''q3'', quiz_title = ''Empty'', quiz_questions = []\<rparr>],
      questions =
        [\<lparr>question_id = ''n1'', question_quizId = ''q1'', question_text = ''What is 2+2?'',
          question_options =
            [\<lparr>opt_id = ''a'', opt_text = ''3''\<rparr>, \<lparr>opt_id = ''b'', opt_text = ''4''\<rparr>],
          question_correctOptionId = ''b''\<rparr>,
         \<lparr>question_id = ''n2'', question_quizId = ''q2'', question_text = ''Capital of France?'',
          question_options =
            [\<lparr>opt_id = ''a'', opt_text = ''Paris''\<rparr>, \<lparr>opt_id = ''b'', opt_text = ''Rome''\<rparr>],
          question_correctOptionId = ''a''\<rparr>,
         \<lparr>question_id = ''n3'', question_quizId = ''q1'', question_text = ''What is 1+2?'',
          question_options =
            [\<lparr>opt_id = ''a'', opt_text = ''3''\<rparr>, \<lparr>opt_id = ''b'', opt_text = ''4''\<rparr>],
          question_correctOptionId = ''a''\<rparr>]\<rparr>"
  by (simp add: demo_state_def demo_calls_def initial_def createQuiz_def addQuestion_def Let_def)

lemma demo_fresh: "fresh_ids demo_calls initial"
  by (simp add: demo_calls_def initial_def createQuiz_def addQuestion_def Let_def)

lemma find_distinct_ex:
  "distinct (map f xs) \<Longrightarrow>
   (case find (\<lambda>q. f q = k) xs of None \<Rightarrow> False | Some q \<Rightarrow> g q) = (\<exists>q \<in> set xs. f q = k \<and> g q)"
proof (induction xs)
  case Nil
  then show ?case by simp
next
  case (Cons x xs)
  show ?case
  proof (cases "f x = k")
    case True
    with Cons.prems have "k \<notin> f ` set xs" by simp
    then have "\<forall>q \<in> set xs. f q \<noteq> k" by blast
    with True show ?thesis by auto
  next
    case False
    with Cons show ?thesis by simp
  qed
qed

lemma scores_spec:
  assumes "distinct (map question_id (questions st))"
  shows "scores (filter (\<lambda>q. question_quizId q = quizId) (questions st)) =
     (\<lambda>a. list_ex (\<lambda>q. question_quizId q = quizId \<and> question_id q = questionId a \<and>
                   question_correctOptionId q = selectedOptionId a) (questions st))"
proof (rule ext)
  fix a
  have "distinct (map question_id (filter (\<lambda>q. question_quizId q = quizId) (questions st)))"
    using assms by (rule distinct_map_filter)
  then show "scores (filter (\<lambda>q. question_quizId q = quizId) (questions st)) a =
     list_ex (\<lambda>q. question_quizId q = quizId \<and> question_id q = questionId a \<and>
                   question_correctOptionId q = selectedOptionId a) (questions st)"
    unfolding scores_def by (subst find_distinct_ex) (auto simp: list_ex_iff)
qed

lemma scores_foreign:
  "questionId a \<notin> set (map question_id qs) \<Longrightarrow> \<not> scores qs a"
proof -
  assume "questionId a \<notin> set (map question_id qs)"
  then have "find (\<lambda>q. question_id q = questionId a) qs = None"
    by (auto simp: find_None_iff image_iff)
  then show ?thesis by (simp add: scores_def)
qed

lemma submitAnswers_spec:
  assumes "quizId \<in> set (map quiz_id (quizzes st))"
    and "distinct (map question_id (questions st))"
    and "length answers = spec_total quizId st"
  shows "submitAnswers quizId answers st =
     (Inr \<lparr>result_score = spec_score quizId answers st, result_total = spec_total quizId st\<rparr>, st)"
  using assms by (simp add: submitAnswers_found spec_score_def scores_spec)

text \<open>
  Claim C1. In a state where a quiz with id \<open>quizId\<close> exists (and question ids are
  unique, as \<^verbatim>\<open>uuidv4()\<close> makes them), \<open>submitAnswers\<close> on as many answers as the quiz has
  questions succeeds with \<open>total\<close> the number of questions of the quiz and \<open>score\<close> the
  number of answers matched by a question of the quiz with that id and that correct
  option. An answer whose question id matches no question of the quiz raises no error
  and adds nothing: the score is the one of the other answers.
\<close>

theorem submitAnswers_score_total:
  assumes "quizId \<in> set (map quiz_id (quizzes st))"
    and "distinct (map question_id (questions st))"
  shows "(length answers = spec_total quizId st \<longrightarrow>
            submitAnswers quizId answers st =
              (Inr \<lparr>result_score = spec_score quizId answers st,
                    result_total = spec_total quizId st\<rparr>, st)) \<and>
         (length (xs @ a # ys) = spec_total quizId st \<and>
          questionId a \<notin> set (map question_id
                                (filter (\<lambda>q. question_quizId q = quizId) (questions st))) \<longrightarrow>
            submitAnswers quizId (xs @ a # ys) st =
              (Inr \<lparr>result_score = spec_score quizId (xs @ ys) st,
                    result_total = spec_total quizId st\<rparr>, st))"
proof (intro conjI impI)
  assume "length answers = spec_total quizId st"
  with assms show "submitAnswers quizId answers st =
      (Inr \<lparr>result_score = spec_score quizId answers st,
            result_total = spec_total quizId st\<rparr>, st)"
    by (rule submitAnswers_spec)
next
  assume h: "length (xs @ a # ys) = spec_total quizId st \<and>
    questionId a \<notin> set (map question_id
                          (filter (\<lambda>q. question_quizId q = quizId) (questions st)))"
  then have "\<not> scores (filter (\<lambda>q. question_quizId q = quizId) (questions st)) a"
    using scores_foreign by blast
  then have "spec_score quizId (xs @ a # ys) st = spec_score quizId (xs @ ys) st"
    by (simp add: spec_score_def scores_spec [OF assms(2)])
  with h assms show "submitAnswers quizId (xs @ a # ys) st =
      (Inr \<lparr>result_score = spec_score quizId (xs @ ys) st,
            result_total = spec_total quizId st\<rparr>, st)"
    by (simp add: submitAnswers_spec)
qed

theorem submitAnswers_score_total_witness:
  "''q1'' \<in> set (map quiz_id (quizzes demo_state)) \<and>
   distinct (map question_id (questions demo_state)) \<and>
   length [\<lparr>questionId = ''n1'', selectedOptionId = ''b''\<rparr>,
           \<lparr>questionId = ''n2'', selectedOptionId = ''a''\<rparr>] = spec_total ''q1'' demo_state \<and>
   ''n2'' \<notin> set (map question_id (filter (\<lambda>q. question_quizId q = ''q1'') (questions demo_state))) \<and>
   submitAnswers ''q1'' [\<lparr>questionId = ''n1'', selectedOptionId = ''b''\<rparr>,
                         \<lparr>questionId = ''n2'', selectedOptionId = ''a''\<rparr>] demo_state =
     (Inr \<lparr>result_score = 1, result_total = 2\<rparr>, demo_state)"
proof -
  have q: "''q1'' \<in> set (map quiz_id (quizzes demo_state))"
    and d: "distinct (map question_id (questions demo_state))"
    by (simp_all add: demo_state_eq)
  have n: "spec_total ''q1'' demo_state = 2"
    and f: "''n2'' \<notin> set (map question_id
              (filter (\<lambda>q. question_quizId q = ''q1'') (questions demo_state)))"
    and s: "spec_score ''q1'' [\<lparr>questionId = ''n1'', selectedOptionId = ''b''\<rparr>] demo_state = 1"
    by (simp_all add: demo_state_eq spec_total_def spec_score_def)
  show ?thesis
    using q d n f s
      submitAnswers_score_total [OF q d,
        of "[]" "[\<lparr>questionId = ''n1'', selectedOptionId = ''b''\<rparr>]"
           "\<lparr>questionId = ''n2'', selectedOptionId = ''a''\<rparr>" "[]"]
    by simp
qed

text \<open>
  Claim C6. Whenever \<open>submitAnswers\<close> succeeds, the score it returns is at most the
  total it returns.
\<close>

theorem submitAnswers_score_le_total:
  assumes "submitAnswers quizId answers st = (Inr r, st')"
  shows "result_score r \<le> result_total r"
proof (cases "quizId \<in> set (map quiz_id (quizzes st))")
  case True
  with assms have "result_score r =
      length (filter (scores (filter (\<lambda>q. question_quizId q = quizId) (questions st))) answers)"
    and "result_total r = length answers"
    by (auto simp: submitAnswers_found split: if_splits)
  then show ?thesis by simp
next
  case False
  with assms show ?thesis by (simp add: submitAnswers_missing)
qed

theorem submitAnswers_score_le_total_witness:
  "submitAnswers ''q1'' [\<lparr>questionId = ''n1'', selectedOptionId = ''b''\<rparr>,
                         \<lparr>questionId = ''n3'', selectedOptionId = ''b''\<rparr>] demo_state =
     (Inr \<lparr>result_score = 1, result_total = 2\<rparr>, demo_state) \<and>
   result_score \<lparr>result_score = 1, result_total = 2\<rparr> \<le>
     result_total \<lparr>result_score = 1, result_total = 2\<rparr>"
proof -
  have h: "submitAnswers ''q1'' [\<lparr>questionId = ''n1'', selectedOptionId = ''b''\<rparr>,
                                  \<lparr>questionId = ''n3'', selectedOptionId = ''b''\<rparr>] demo_state =
     (Inr \<lparr>result_score = 1, result_total = 2\<rparr>, demo_state)"
    by (simp add: submitAnswers_def score_step_def Let_def demo_state_eq)
  from h submitAnswers_score_le_total [OF h] show ?thesis by (rule conjI)
qed

text \<open>
  Claim C7. Scoring does not depend on the order of the answers: on two answer sequences
  that are permutations of each other, \<open>submitAnswers\<close> fails with the same error or
  returns the same score and total (and leaves the same state).
\<close>

theorem submitAnswers_permutation:
  assumes "mset answers' = mset answers"
  shows "submitAnswers quizId answers' st = submitAnswers quizId answers st"
proof (cases "quizId \<in> set (map quiz_id (quizzes st))")
  case True
  have len: "length answers' = length answers"
    using assms by (metis size_mset)
  have "mset (filter P answers') = mset (filter P answers)" for P
    using assms by (simp only: mset_filter)
  then have "length (filter P answers') = length (filter P answers)" for P
    by (metis size_mset)
  with True len show ?thesis by (simp add: submitAnswers_found)
next
  case False
  then show ?thesis by (simp add: submitAnswers_missing)
qed

theorem submitAnswers_permutation_witness:
  "mset [\<lparr>questionId = ''n3'', selectedOptionId = ''b''\<rparr>,
         \<lparr>questionId = ''n1'', selectedOptionId = ''b''\<rparr>] =
   mset [\<lparr>questionId = ''n1'', selectedOptionId = ''b''\<rparr>,
         \<lparr>questionId = ''n3'', selectedOptionId = ''b''\<rparr>] \<and>
   submitAnswers ''q1'' [\<lparr>questionId = ''n3'', selectedOptionId = ''b''\<rparr>,
                         \<lparr>questionId = ''n1'', selectedOptionId = ''b''\<rparr>] demo_state =
     (Inr \<lparr>result_score = 1, result_total = 2\<rparr>, demo_state)"
proof -
  have p: "mset [\<lparr>questionId = ''n3'', selectedOptionId = ''b''\<rparr>,
                 \<lparr>questionId = ''n1'', selectedOptionId = ''b''\<rparr>] =
           mset [\<lparr>questionId = ''n1'', selectedOptionId = ''b''\<rparr>,
                 \<lparr>questionId = ''n3'', selectedOptionId = ''b''\<rparr>]"
    by (simp add: add_mset_commute)
  have e: "submitAnswers ''q1'' [\<lparr>questionId = ''n1'', selectedOptionId = ''b''\<rparr>,
                                  \<lparr>questionId = ''n3'', selectedOptionId = ''b''\<rparr>] demo_state =
     (Inr \<lparr>result_score = 1, result_total = 2\<rparr>, demo_state)"
    by (simp add: submitAnswers_def score_step_def Let_def demo_state_eq)
  show ?thesis
    using p e submitAnswers_permutation [OF p, of "''q1''" demo_state] by simp
qed

text \<open>
  Claim C8. \<open>submitAnswers\<close> is read-only: whether it succeeds or fails, the state it
  leaves (both collections) is the state it was called in.
\<close>

theorem submitAnswers_read_only:
  "snd (submitAnswers quizId answers st) = st"
  by (cases "quizId \<in> set (map quiz_id (quizzes st))")
     (simp_all add: submitAnswers_found submitAnswers_missing)

text \<open>
  Claim C2. When the quiz exists, \<open>submitAnswers\<close> fails with the validation error
  ("Answers must cover all questions") exactly when the number of answers differs from
  the number of questions of the quiz, and succeeds exactly when they agree; for a quiz
  without questions the empty sequence is the only one accepted, with score 0 of 0.
\<close>

theorem submitAnswers_cardinality:
  assumes "quizId \<in> set (map quiz_id (quizzes st))"
  shows "(fst (submitAnswers quizId answers st) = Inl ValidationError) =
           (length answers \<noteq> spec_total quizId st) \<and>
         (\<exists>r. fst (submitAnswers quizId answers st) = Inr r) =
           (length answers = spec_total quizId st) \<and>
         message ValidationError = ''Answers must cover all questions'' \<and>
         (spec_total quizId st = 0 \<longrightarrow>
            (\<exists>r. fst (submitAnswers quizId answers st) = Inr r) = (answers = []) \<and>
            submitAnswers quizId [] st = (Inr \<lparr>result_score = 0, result_total = 0\<rparr>, st))"
  using assms by (simp add: submitAnswers_found)

theorem submitAnswers_cardinality_witness:
  "''q1'' \<in> set (map quiz_id (quizzes demo_state)) \<and>
   ''q3'' \<in> set (map quiz_id (quizzes demo_state)) \<and>
   spec_total ''q1'' demo_state = 2 \<and>
   spec_total ''q3'' demo_state = 0 \<and>
   fst (submitAnswers ''q1'' [\<lparr>questionId = ''n1'', selectedOptionId = ''b''\<rparr>] demo_state) =
     Inl ValidationError \<and>
   fst (submitAnswers ''q3'' [\<lparr>questionId = ''n1'', selectedOptionId = ''b''\<rparr>] demo_state) =
     Inl ValidationError \<and>
   submitAnswers ''q3'' [] demo_state = (Inr \<lparr>result_score = 0, result_total = 0\<rparr>, demo_state)"
proof -
  have q1: "''q1'' \<in> set (map quiz_id (quizzes demo_state))"
    and q3: "''q3'' \<in> set (map quiz_id (quizzes demo_state))"
    by (simp_all add: demo_state_eq)
  have t1: "spec_total ''q1'' demo_state = 2" and t3: "spec_total ''q3'' demo_state = 0"
    by (simp_all add: spec_total_def demo_state_eq)
  show ?thesis
    using q1 q3 t1 t3
      submitAnswers_cardinality [OF q1, of "[\<lparr>questionId = ''n1'', selectedOptionId = ''b''\<rparr>]"]
      submitAnswers_cardinality [OF q3, of "[\<lparr>questionId = ''n1'', selectedOptionId = ''b''\<rparr>]"]
    by simp
qed

text \<open>
  Claim C5. When no quiz of the collection has the id, \<open>getQuestions\<close> and
  \<open>submitAnswers\<close> (on any answers, of any length) fail with "Quiz not found", and the
  state stays as it was.
\<close>

theorem unknown_quiz_not_found:
  assumes "quizId \<notin> set (map quiz_id (quizzes st))"
  shows "getQuestions quizId st = (Inl NotFound, st) \<and>
         submitAnswers quizId answers st = (Inl NotFound, st) \<and>
         message NotFound = ''Quiz not found''"
  using assms find_quiz_None [of quizId "quizzes st"]
  by (simp add: getQuestions_def submitAnswers_def)

theorem unknown_quiz_not_found_witness:
  "''q9'' \<notin> set (map quiz_id (quizzes demo_state)) \<and>
   getQuestions ''q9'' demo_state = (Inl NotFound, demo_state) \<and>
   submitAnswers ''q9'' [\<lparr>questionId = ''n1'', selectedOptionId = ''b''\<rparr>] demo_state =
     (Inl NotFound, demo_state)"
proof -
  have h: "''q9'' \<notin> set (map quiz_id (quizzes demo_state))"
    by (simp add: demo_state_eq)
  show ?thesis
    using h unknown_quiz_not_found [OF h, of "[\<lparr>questionId = ''n1'', selectedOptionId = ''b''\<rparr>]"]
    by simp
qed

section \<open>Reading the questions of a quiz\<close>

lemma spec_questions_of_filter:
  "map (\<lambda>q. \<lparr>view_id = question_id q, view_text = question_text q,
               view_options = question_options q\<rparr>)
     (filter (\<lambda>q. question_quizId q = quizId) qs) = spec_questions_of quizId qs"
  by (induction qs) simp_all

lemma spec_questions_of_correctOptionId:
  "spec_questions_of quizId (map (\<lambda>q. q\<lparr>question_correctOptionId := f q\<rparr>) qs) =
   spec_questions_of quizId qs"
  by (induction qs) simp_all

lemma getQuestions_cases:
  "getQuestions quizId st =
     (if quizId \<in> set (map quiz_id (quizzes st))
      then (Inr (spec_questions_of quizId (questions st)), st)
      else (Inl NotFound, st))"
  using find_quiz_None [of quizId "quizzes st"]
  by (auto simp: getQuestions_def spec_questions_of_filter split: option.splits)

text \<open>
  Claim C3. When the quiz exists, \<open>getQuestions\<close> returns the questions whose
  \<^verbatim>\<open>quizId\<close> is the given one, in the order of the question collection, each as
  \<^verbatim>\<open>{id, text, options}\<close>. The correct option is no part of the answer: whatever the
  \<^verbatim>\<open>correctOptionId\<close> fields of the stored questions are, the result is the same.
\<close>

theorem getQuestions_projection:
  assumes "quizId \<in> set (map quiz_id (quizzes st))"
  shows "getQuestions quizId st = (Inr (spec_questions_of quizId (questions st)), st) \<and>
         fst (getQuestions quizId
                (st\<lparr>questions := map (\<lambda>q. q\<lparr>question_correctOptionId := f q\<rparr>) (questions st)\<rparr>)) =
           fst (getQuestions quizId st)"
  using assms by (simp add: getQuestions_cases spec_questions_of_correctOptionId)

theorem getQuestions_projection_witness:
  "''q1'' \<in> set (map quiz_id (quizzes demo_state)) \<and>
   getQuestions ''q1'' demo_state =
     (Inr [\<lparr>view_id = ''n1'', view_text = ''What is 2+2?'',
            view_options = [\<lparr>opt_id = ''a'', opt_text = ''3''\<rparr>, \<lparr>opt_id = ''b'', opt_text = ''4''\<rparr>]\<rparr>,
           \<lparr>view_id = ''n3'', view_text = ''What is 1+2?'',
            view_options = [\<lparr>opt_id = ''a'', opt_text = ''3''\<rparr>, \<lparr>opt_id = ''b'', opt_text = ''4''\<rparr>]\<rparr>],
      demo_state) \<and>
   fst (getQuestions ''q1''
          (demo_state\<lparr>questions := map (\<lambda>q. q\<lparr>question_correctOptionId := ''a''\<rparr>)
                                        (questions demo_state)\<rparr>)) =
     fst (getQuestions ''q1'' demo_state)"
proof -
  have h: "''q1'' \<in> set (map quiz_id (quizzes demo_state))"
    by (simp add: demo_state_eq)
  have e: "spec_questions_of ''q1'' (questions demo_state) =
     [\<lparr>view_id = ''n1'', view_text = ''What is 2+2?'',
       view_options = [\<lparr>opt_id = ''a'', opt_text = ''3''\<rparr>, \<lparr>opt_id = ''b'', opt_text = ''4''\<rparr>]\<rparr>,
      \<lparr>view_id = ''n3'', view_text = ''What is 1+2?'',
       view_options = [\<lparr>opt_id = ''a'', opt_text = ''3''\<rparr>, \<lparr>opt_id = ''b'', opt_text = ''4''\<rparr>]\<rparr>]"
    by (simp add: demo_state_eq)
  show ?thesis
    using h getQuestions_projection [OF h, of "\<lambda>q. ''a''"] unfolding e by simp
qed


section \<open>Adding a question\<close>

text \<open>
  Every identifier in the two collections was handed out by \<^verbatim>\<open>uuidv4()\<close>, and as long as
  \<^verbatim>\<open>uuidv4()\<close> does not return an identifier twice the question ids stay pairwise distinct.
\<close>

lemma generated_append:
  "generated (cs @ ds) st = generated cs st @ generated ds (run cs st)"
  by (induction cs arbitrary: st) simp_all

lemma step_question_ids:
  "map question_id (questions (step c st)) =
     map question_id (questions st) @
       (case c of AddQuestion newId quizId body options correct \<Rightarrow> generated_by c st | _ \<Rightarrow> [])"
  by (cases c)
     (simp_all add: createQuiz_def Let_def getAllQuizzes_def getQuestions_snd submitAnswers_snd
        addQuestion_cases)

lemma step_quiz_ids:
  "map quiz_id (quizzes (step c st)) =
     map quiz_id (quizzes st) @
       (case c of CreateQuiz newId title \<Rightarrow> generated_by c st | _ \<Rightarrow> [])"
  by (cases c)
     (simp_all add: createQuiz_def Let_def getAllQuizzes_def getQuestions_snd submitAnswers_snd
        addQuestion_cases push_question_ids)

lemma step_question_ids_subset:
  "set (map question_id (questions (step c st))) \<subseteq>
     set (map question_id (questions st)) \<union> set (generated_by c st)"
  unfolding step_question_ids by (cases c) auto

lemma step_quiz_ids_subset:
  "set (map quiz_id (quizzes (step c st))) \<subseteq>
     set (map quiz_id (quizzes st)) \<union> set (generated_by c st)"
  unfolding step_quiz_ids by (cases c) auto

lemma run_question_ids_generated:
  "set (map question_id (questions (run cs st))) \<subseteq>
     set (map question_id (questions st)) \<union> set (generated cs st)"
proof (induction cs arbitrary: st)
  case Nil
  then show ?case by simp
next
  case (Cons c cs)
  from Cons.IH [of "step c st"] step_question_ids_subset [of c st]
  show ?case by auto
qed

lemma run_quiz_ids_generated:
  "set (map quiz_id (quizzes (run cs st))) \<subseteq>
     set (map quiz_id (quizzes st)) \<union> set (generated cs st)"
proof (induction cs arbitrary: st)
  case Nil
  then show ?case by simp
next
  case (Cons c cs)
  from Cons.IH [of "step c st"] step_quiz_ids_subset [of c st]
  show ?case by auto
qed

lemma step_question_ids_distinct:
  assumes "distinct (map question_id (questions st))"
    and "set (generated_by c st) \<inter> set (map question_id (questions st)) = {}"
  shows "distinct (map question_id (questions (step c st)))"
proof -
  have "distinct (generated_by c st)" by (cases c) simp_all
  with assms show ?thesis
    unfolding step_question_ids by (cases c) auto
qed

lemma run_question_ids_distinct:
  assumes "distinct (generated cs st)"
    and "set (generated cs st) \<inter> set (map question_id (questions st)) = {}"
    and "distinct (map question_id (questions st))"
  shows "distinct (map question_id (questions (run cs st)))"
  using assms
proof (induction cs arbitrary: st)
  case Nil
  then show ?case by simp
next
  case (Cons c cs)
  from Cons.prems have g: "distinct (generated cs (step c st))"
    and x: "set (generated_by c st) \<inter> set (generated cs (step c st)) = {}"
    and y: "set (generated_by c st) \<inter> set (map question_id (questions st)) = {}"
    and z: "set (generated cs (step c st)) \<inter> set (map question_id (questions st)) = {}"
    by auto
  from Cons.prems(3) y have d: "distinct (map question_id (questions (step c st)))"
    by (rule step_question_ids_distinct)
  from x z step_question_ids_subset [of c st]
  have "set (generated cs (step c st)) \<inter> set (map question_id (questions (step c st))) = {}"
    by blast
  with g d show ?case by (simp add: Cons.IH)
qed

text \<open>
  Claim C4, as the code has it. \<open>addQuestion\<close> looks the quiz up first: when no quiz has
  the id it fails with "Quiz not found", whatever the correct option id is. When the quiz
  exists and the correct option id is the id of none of the options, it fails with
  "Invalid correct option ID". In both cases the state stays as it was. When the quiz
  exists and the correct option id is the id of an option, a new question is appended to
  the question collection and its id to the question ids of the owning quiz (the first
  quiz with that id). The id of the new question is fresh and unique: in a state reached
  from the empty one, with \<^verbatim>\<open>uuidv4()\<close> never returning an identifier twice, it is the id
  of no question and of no quiz of the collections, and the question ids are pairwise
  distinct after the call.
\<close>

theorem addQuestion_outcomes:
  assumes "question = \<lparr>question_id = newId, question_quizId = quizId, question_text = text,
                       question_options = options, question_correctOptionId = correctOptionId\<rparr>"
  shows "(quizId \<notin> set (map quiz_id (quizzes st)) \<longrightarrow>
            addQuestion newId quizId text options correctOptionId st = (Inl NotFound, st)) \<and>
         (quizId \<in> set (map quiz_id (quizzes st)) \<and>
          correctOptionId \<notin> set (map opt_id options) \<longrightarrow>
            addQuestion newId quizId text options correctOptionId st =
              (Inl InvalidReference, st)) \<and>
         message InvalidReference = ''Invalid correct option ID'' \<and>
         (quizId \<in> set (map quiz_id (quizzes st)) \<and>
          correctOptionId \<in> set (map opt_id options) \<longrightarrow>
            (\<exists>qs1 q qs2.
               quizzes st = qs1 @ q # qs2 \<and> quiz_id q = quizId \<and>
               quizId \<notin> set (map quiz_id qs1) \<and>
               addQuestion newId quizId text options correctOptionId st =
                 (Inr question,
                  \<lparr>quizzes = qs1 @ q\<lparr>quiz_questions := quiz_questions q @ [newId]\<rparr> # qs2,
                   questions = questions st @ [question]\<rparr>)) \<and>
            (st = run cs initial \<and>
             distinct (generated
               (cs @ [AddQuestion newId quizId text options correctOptionId]) initial) \<longrightarrow>
               question_id question \<notin> set (map question_id (questions st)) \<and>
               question_id question \<notin> set (map quiz_id (quizzes st)) \<and>
               distinct (map question_id
                 (questions (snd (addQuestion newId quizId text options correctOptionId st))))))"
proof (intro conjI impI)
  assume h: "quizId \<in> set (map quiz_id (quizzes st)) \<and>
    correctOptionId \<in> set (map opt_id options)"
  then obtain qs1 q qs2 where
    "quizzes st = qs1 @ q # qs2" "quiz_id q = quizId" "quizId \<notin> set (map quiz_id qs1)"
    "push_question quizId newId (quizzes st) =
       qs1 @ q\<lparr>quiz_questions := quiz_questions q @ [newId]\<rparr> # qs2"
    using push_question_split [of quizId "quizzes st" newId] by blast
  with h assms show "\<exists>qs1 q qs2.
     quizzes st = qs1 @ q # qs2 \<and> quiz_id q = quizId \<and> quizId \<notin> set (map quiz_id qs1) \<and>
     addQuestion newId quizId text options correctOptionId st =
       (Inr question,
        \<lparr>quizzes = qs1 @ q\<lparr>quiz_questions := quiz_questions q @ [newId]\<rparr> # qs2,
         questions = questions st @ [question]\<rparr>)"
    by (simp add: addQuestion_cases) blast
next
  assume h: "quizId \<in> set (map quiz_id (quizzes st)) \<and>
    correctOptionId \<in> set (map opt_id options)"
    and r: "st = run cs initial \<and>
      distinct (generated (cs @ [AddQuestion newId quizId text options correctOptionId]) initial)"
  from r h have g: "distinct (generated cs initial)"
    and n: "newId \<notin> set (generated cs initial)"
    by (simp_all add: generated_append)
  have "set (map question_id (questions st)) \<subseteq> set (generated cs initial)"
    using run_question_ids_generated [of cs initial] r by (simp add: initial_def)
  with n have fq: "newId \<notin> set (map question_id (questions st))" by blast
  have "set (map quiz_id (quizzes st)) \<subseteq> set (generated cs initial)"
    using run_quiz_ids_generated [of cs initial] r by (simp add: initial_def)
  with n have fz: "newId \<notin> set (map quiz_id (quizzes st))" by blast
  have d: "distinct (map question_id (questions st))"
    using run_question_ids_distinct [OF g, of] r by (simp add: initial_def)
  from fq assms show "question_id question \<notin> set (map question_id (questions st))"
    by simp
  from fz assms show "question_id question \<notin> set (map quiz_id (quizzes st))"
    by simp
  from h fq d show "distinct (map question_id
      (questions (snd (addQuestion newId quizId text options correctOptionId st))))"
    by (simp add: addQuestion_cases)
qed (simp_all add: addQuestion_cases)

theorem addQuestion_outcomes_witness:
  "''q9'' \<notin> set (map quiz_id (quizzes demo_state)) \<and>
   ''q2'' \<in> set (map quiz_id (quizzes demo_state)) \<and>
   ''c'' \<notin> set (map opt_id [\<lparr>opt_id = ''a'', opt_text = ''Oslo''\<rparr>,
                                 \<lparr>opt_id = ''b'', opt_text = ''Bergen''\<rparr>]) \<and>
   ''b'' \<in> set (map opt_id [\<lparr>opt_id = ''a'', opt_text = ''Oslo''\<rparr>,
                              \<lparr>opt_id = ''b'', opt_text = ''Bergen''\<rparr>]) \<and>
   demo_state = run demo_calls initial \<and>
   distinct (generated (demo_calls @ [AddQuestion ''n4'' ''q2'' ''Capital of Norway?''
       [\<lparr>opt_id = ''a'', opt_text = ''Oslo''\<rparr>, \<lparr>opt_id = ''b'', opt_text = ''Bergen''\<rparr>] ''b''])
     initial) \<and>
   addQuestion ''n4'' ''q9'' ''Capital of Norway?''
       [\<lparr>opt_id = ''a'', opt_text = ''Oslo''\<rparr>, \<lparr>opt_id = ''b'', opt_text = ''Bergen''\<rparr>] ''c''
       demo_state = (Inl NotFound, demo_state) \<and>
   addQuestion ''n4'' ''q2'' ''Capital of Norway?''
       [\<lparr>opt_id = ''a'', opt_text = ''Oslo''\<rparr>, \<lparr>opt_id = ''b'', opt_text = ''Bergen''\<rparr>] ''c''
       demo_state = (Inl InvalidReference, demo_state) \<and>
   map quiz_questions
     (quizzes (snd (addQuestion ''n4'' ''q2'' ''Capital of Norway?''
       [\<lparr>opt_id = ''a'', opt_text = ''Oslo''\<rparr>, \<lparr>opt_id = ''b'', opt_text = ''Bergen''\<rparr>] ''b''
       demo_state))) = [[''n1'', ''n3''], [''n2'', ''n4''], []] \<and>
   ''n4'' \<notin> set (map question_id (questions demo_state)) \<and>
   ''n4'' \<notin> set (map quiz_id (quizzes demo_state)) \<and>
   distinct (map question_id
     (questions (snd (addQuestion ''n4'' ''q2'' ''Capital of Norway?''
       [\<lparr>opt_id = ''a'', opt_text = ''Oslo''\<rparr>, \<lparr>opt_id = ''b'', opt_text = ''Bergen''\<rparr>] ''b''
       demo_state))))"
proof -
  have q9: "''q9'' \<notin> set (map quiz_id (quizzes demo_state))"
    and q2: "''q2'' \<in> set (map quiz_id (quizzes demo_state))"
    by (simp_all add: demo_state_eq)
  have c: "''c'' \<notin> set (map opt_id [\<lparr>opt_id = ''a'', opt_text = ''Oslo''\<rparr>,
                                        \<lparr>opt_id = ''b'', opt_text = ''Bergen''\<rparr>])"
    and b: "''b'' \<in> set (map opt_id [\<lparr>opt_id = ''a'', opt_text = ''Oslo''\<rparr>,
                                       \<lparr>opt_id = ''b'', opt_text = ''Bergen''\<rparr>])"
    by simp_all
  have r: "demo_state = run demo_calls initial" by (rule demo_state_def)
  have "generated demo_calls initial = [''q1'', ''q2'', ''q3'', ''n1'', ''n2'', ''n3'']"
    by (simp add: demo_calls_def initial_def createQuiz_def addQuestion_def Let_def)
  with q2 b have g: "distinct (generated (demo_calls @ [AddQuestion ''n4'' ''q2''
       ''Capital of Norway?''
       [\<lparr>opt_id = ''a'', opt_text = ''Oslo''\<rparr>, \<lparr>opt_id = ''b'', opt_text = ''Bergen''\<rparr>] ''b''])
     initial)"
    unfolding generated_append r [symmetric] by simp
  have p: "map quiz_questions
     (quizzes (snd (addQuestion ''n4'' ''q2'' ''Capital of Norway?''
       [\<lparr>opt_id = ''a'', opt_text = ''Oslo''\<rparr>, \<lparr>opt_id = ''b'', opt_text = ''Bergen''\<rparr>] ''b''
       demo_state))) = [[''n1'', ''n3''], [''n2'', ''n4''], []]"
    by (simp add: addQuestion_def Let_def demo_state_eq)
  note t = addQuestion_outcomes [OF refl, of _ demo_state "''n4''" "''Capital of Norway?''"
      "[\<lparr>opt_id = ''a'', opt_text = ''Oslo''\<rparr>, \<lparr>opt_id = ''b'', opt_text = ''Bergen''\<rparr>]"]
  from t [of "''q9''" "''c''"] q9
  have 1: "addQuestion ''n4'' ''q9'' ''Capital of Norway?''
       [\<lparr>opt_id = ''a'', opt_text = ''Oslo''\<rparr>, \<lparr>opt_id = ''b'', opt_text = ''Bergen''\<rparr>] ''c''
       demo_state = (Inl NotFound, demo_state)"
    by blast
  from t [of "''q2''" "''c''"] q2 c
  have 2: "addQuestion ''n4'' ''q2'' ''Capital of Norway?''
       [\<lparr>opt_id = ''a'', opt_text = ''Oslo''\<rparr>, \<lparr>opt_id = ''b'', opt_text = ''Bergen''\<rparr>] ''c''
       demo_state = (Inl InvalidReference, demo_state)"
    by blast
  from t [of "''q2''" "''b''" demo_calls] q2 b r g
  have 3: "''n4'' \<notin> set (map question_id (questions demo_state)) \<and>
     ''n4'' \<notin> set (map quiz_id (quizzes demo_state)) \<and>
     distinct (map question_id
     (questions (snd (addQuestion ''n4'' ''q2'' ''Capital of Norway?''
       [\<lparr>opt_id = ''a'', opt_text = ''Oslo''\<rparr>, \<lparr>opt_id = ''b'', opt_text = ''Bergen''\<rparr>] ''b''
       demo_state))))"
    by simp
  from q9 q2 c b r g 1 2 p 3 show ?thesis by blast
qed

text \<open>
  The claim as written fails where the quiz does not exist: with no quiz at all and a
  correct option id that is the id of none of the options, the failure is "Quiz not
  found", not "Invalid correct option ID".
\<close>

theorem addQuestion_unknown_quiz_counterexample:
  "''c'' \<notin> set (map opt_id [\<lparr>opt_id = ''a'', opt_text = ''3''\<rparr>,
                                 \<lparr>opt_id = ''b'', opt_text = ''4''\<rparr>]) \<and>
   addQuestion ''n1'' ''q1'' ''What is 2+2?''
       [\<lparr>opt_id = ''a'', opt_text = ''3''\<rparr>, \<lparr>opt_id = ''b'', opt_text = ''4''\<rparr>] ''c'' initial =
     (Inl NotFound, initial) \<and>
   fst (addQuestion ''n1'' ''q1'' ''What is 2+2?''
       [\<lparr>opt_id = ''a'', opt_text = ''3''\<rparr>, \<lparr>opt_id = ''b'', opt_text = ''4''\<rparr>] ''c'' initial) \<noteq>
     Inl InvalidReference"
  by (simp add: addQuestion_def initial_def)


section \<open>Invariants of the reachable states\<close>

lemma options_distinct_step:
  "options_distinct st \<Longrightarrow> distinct_options_supplied c \<Longrightarrow> options_distinct (step c st)"
  by (cases c)
     (auto simp: options_distinct_def createQuiz_def Let_def getAllQuizzes_def
        getQuestions_snd submitAnswers_snd addQuestion_cases)

lemma options_distinct_run:
  "options_distinct st \<Longrightarrow> list_all distinct_options_supplied cs \<Longrightarrow>
   options_distinct (run cs st)"
  by (induction cs arbitrary: st) (simp_all add: options_distinct_step)

text \<open>
  Claim C9, as the code has it. The service stores the options it is given and never
  compares their ids with each other. In a state reached from the empty one by calls of
  the five operations, every question has pairwise distinct option ids provided every
  \<open>addQuestion\<close> call was given options with pairwise distinct ids.
\<close>

theorem reachable_options_distinct:
  assumes "list_all distinct_options_supplied cs"
  shows "options_distinct (run cs initial)"
proof -
  have "options_distinct initial"
    by (simp add: options_distinct_def initial_def)
  then show ?thesis using assms by (rule options_distinct_run)
qed

theorem reachable_options_distinct_witness:
  "list_all distinct_options_supplied demo_calls \<and> options_distinct demo_state"
proof -
  have h: "list_all distinct_options_supplied demo_calls"
    by (simp add: demo_calls_def)
  from h reachable_options_distinct [OF h] show ?thesis
    unfolding demo_state_def by (rule conjI)
qed

text \<open>
  The claim as written fails: with fresh identifiers, a non-empty text, a non-empty
  correct option id and two options, a question whose two options share the id \<open>a\<close> is
  accepted and stored.
\<close>

theorem duplicate_option_ids_counterexample:
  "fresh_ids duplicate_calls initial \<and> list_all validated duplicate_calls \<and>
   \<not> options_distinct (run duplicate_calls initial)"
  by (simp add: duplicate_calls_def initial_def options_distinct_def createQuiz_def
      addQuestion_def Let_def)

text \<open>
  Claim C10. In every state reached from the empty one by calls of the five operations
  (the identifiers generated being fresh), the question ids recorded in each quiz are,
  in the same order, the ids of the questions of the collection whose \<^verbatim>\<open>quizId\<close> is that
  quiz; so the total that \<open>submitAnswers\<close> computes, and checks the number of answers
  against, is the length of the quiz's own list.
\<close>

theorem reachable_questionIds:
  assumes "fresh_ids cs initial" and "q \<in> set (quizzes (run cs initial))"
  shows "quiz_questions q =
           map question_id
             (filter (\<lambda>x. question_quizId x = quiz_id q) (questions (run cs initial))) \<and>
         spec_total (quiz_id q) (run cs initial) = length (quiz_questions q) \<and>
         (fst (submitAnswers (quiz_id q) answers (run cs initial)) = Inl ValidationError) =
           (length answers \<noteq> length (quiz_questions q)) \<and>
         (\<forall>r. fst (submitAnswers (quiz_id q) answers (run cs initial)) = Inr r \<longrightarrow>
              result_total r = length (quiz_questions q))"
proof -
  have "consistent (run cs initial)"
    using consistent_initial assms(1) by (rule consistent_run)
  with assms(2) have k: "quiz_questions q =
      map question_id
        (filter (\<lambda>x. question_quizId x = quiz_id q) (questions (run cs initial)))"
    by (simp add: consistent_def)
  then have t: "spec_total (quiz_id q) (run cs initial) = length (quiz_questions q)"
    by (simp add: spec_total_def)
  from assms(2) have "quiz_id q \<in> set (map quiz_id (quizzes (run cs initial)))"
    by simp
  then have "submitAnswers (quiz_id q) answers (run cs initial) =
    (if length answers \<noteq> length (quiz_questions q) then (Inl ValidationError, run cs initial)
     else (Inr \<lparr>result_score =
                  length (filter (scores (filter (\<lambda>x. question_quizId x = quiz_id q)
                                            (questions (run cs initial)))) answers),
                result_total = length (quiz_questions q)\<rparr>, run cs initial))"
    by (simp only: submitAnswers_found t)
  with k t show ?thesis by auto
qed

theorem reachable_questionIds_witness:
  "fresh_ids demo_calls initial \<and>
   \<lparr>quiz_id = ''q1'', quiz_title = ''Math Quiz'', quiz_questions = [''n1'', ''n3'']\<rparr>
     \<in> set (quizzes (run demo_calls initial)) \<and>
   map question_id (filter (\<lambda>x. question_quizId x = ''q1'') (questions (run demo_calls initial))) =
     [''n1'', ''n3''] \<and>
   spec_total ''q1'' (run demo_calls initial) = 2"
proof -
  have f: "fresh_ids demo_calls initial" by (rule demo_fresh)
  have m: "\<lparr>quiz_id = ''q1'', quiz_title = ''Math Quiz'', quiz_questions = [''n1'', ''n3'']\<rparr>
     \<in> set (quizzes (run demo_calls initial))"
    unfolding demo_state_def [symmetric] by (simp add: demo_state_eq)
  show ?thesis
    using f m reachable_questionIds [OF f m] by simp
qed

end
